theory Spec2Isabelle
  imports Complex_Main "HOL-Library.Multiset"
begin

section \<open>Values and errors\<close>

text \<open>
  The exceptions the detector can raise are values.  \<open>IndexError\<close>, \<open>TypeError\<close> and
  \<open>ValueError\<close> are raised by Python and numpy themselves; \<open>Cv2Error\<close> stands for
  \<open>cv2.error\<close> and \<open>InterpreterError\<close> for whatever the TFLite interpreter raises.
  Scores and coordinates are 32-bit floats in the program; they are only compared and
  copied by the code below, and are modelled by their exact values in \<open>real\<close>.
\<close>

datatype error = IndexError | TypeError | ValueError | Cv2Error | InterpreterError

text \<open>
  A numpy array of dimension zero or one.  \<open>np.squeeze\<close> turns a batch holding a single
  slot into a 0-d array, and indexing a 0-d array raises \<open>IndexError\<close>, as does an index
  past the end of a 1-d array.  Only indices \<open>i \<ge> 0\<close> are ever used.
\<close>

datatype 'a array = Scalar 'a | Vec "'a list"

fun arr_get :: "'a array \<Rightarrow> nat \<Rightarrow> error + 'a" where
  "arr_get (Scalar x) i = Inl IndexError"
| "arr_get (Vec xs) i = (if i < length xs then Inr (xs ! i) else Inl IndexError)"

text \<open>Indexing a Python list with an integer: negative indices count from the end.\<close>

definition list_get :: "'a list \<Rightarrow> int \<Rightarrow> error + 'a" where
  "list_get xs i =
     (if 0 \<le> i \<and> i < int (length xs) then Inr (xs ! nat i)
      else if - int (length xs) \<le> i \<and> i < 0 then Inr (xs ! nat (int (length xs) + i))
      else Inl IndexError)"

section \<open>The result filter: \<open>non_max_suppression\<close>\<close>

text \<open>
  \<open>max_boxes\<close> is a Python integer or \<open>None\<close>; \<open>not max_boxes\<close> holds for \<open>None\<close> and
  for \<open>0\<close>, and then \<open>boxes.shape[0]\<close> takes its place.  The loop runs over
  \<open>range(min(max_boxes, boxes.shape[0]))\<close>, which is empty for a negative bound.
\<close>

definition nms_count :: "int option \<Rightarrow> nat \<Rightarrow> nat" where
  "nms_count max_boxes n =
     (let max_boxes' = (case max_boxes of
                          None \<Rightarrow> int n
                        | Some k \<Rightarrow> if k = 0 then int n else k)
      in nat (min max_boxes' (int n)))"

text \<open>
  One pass of the loop body per index.  With \<open>scores = None\<close> the test
  \<open>scores is None or ...\<close> succeeds, \<open>boxes[i]\<close> is appended and then \<open>scores[i]\<close>
  raises \<open>TypeError\<close>.  The three output lists are only returned when the loop finishes,
  so an error discards them.
\<close>

fun nms_loop ::
  "real array option \<Rightarrow> 'b list \<Rightarrow> 'c array \<Rightarrow> real \<Rightarrow> nat list \<Rightarrow>
   real list \<times> 'b list \<times> 'c list \<Rightarrow> error + (real list \<times> 'b list \<times> 'c list)" where
  "nms_loop scores boxes classes min_score_thresh [] acc = Inr acc"
| "nms_loop scores boxes classes min_score_thresh (i # is) (out_scores, out_boxes, out_classes) =
     (case scores of
        None \<Rightarrow> if i < length boxes then Inl TypeError else Inl IndexError
      | Some sc \<Rightarrow>
          (case arr_get sc i of
             Inl e \<Rightarrow> Inl e
           | Inr s \<Rightarrow>
               if s > min_score_thresh then
                 (if i < length boxes then
                    (case arr_get classes i of
                       Inl e \<Rightarrow> Inl e
                     | Inr c \<Rightarrow>
                         nms_loop scores boxes classes min_score_thresh is
                           (out_scores @ [s], out_boxes @ [boxes ! i], out_classes @ [c]))
                  else Inl IndexError)
               else nms_loop scores boxes classes min_score_thresh is
                      (out_scores, out_boxes, out_classes)))"

definition non_max_suppression ::
  "real array option \<Rightarrow> 'b list \<Rightarrow> 'c array \<Rightarrow> int option \<Rightarrow> real \<Rightarrow>
   error + (real list \<times> 'b list \<times> 'c list)" where
  "non_max_suppression scores boxes classes max_boxes min_score_thresh =
     nms_loop scores boxes classes min_score_thresh
       [0 ..< nms_count max_boxes (length boxes)] ([], [], [])"

text \<open>
  What the filter reads at index \<open>i\<close>: whether the score there exceeds the threshold, and
  the whole entry (score, box, class) when all three arrays have one.
\<close>

definition exceeds :: "real array option \<Rightarrow> real \<Rightarrow> nat \<Rightarrow> bool" where
  "exceeds scores thr i =
     (case scores of
        None \<Rightarrow> False
      | Some sc \<Rightarrow> (case arr_get sc i of Inl e \<Rightarrow> False | Inr s \<Rightarrow> s > thr))"

definition entry_at ::
  "real array option \<Rightarrow> 'b list \<Rightarrow> 'c array \<Rightarrow> nat \<Rightarrow> (real \<times> 'b \<times> 'c) option" where
  "entry_at scores boxes classes i =
     (case scores of
        None \<Rightarrow> None
      | Some sc \<Rightarrow>
          (case (arr_get sc i, arr_get classes i) of
             (Inr s, Inr c) \<Rightarrow> if i < length boxes then Some (s, boxes ! i, c) else None
           | _ \<Rightarrow> None))"

section \<open>The class catalog and the color table\<close>

type_synonym color = "int \<times> int \<times> int"

text \<open>The list literal assigned to \<open>self.class_names\<close> in \<open>__init__\<close>.\<close>

definition class_names_literal :: "string list" where
  "class_names_literal =
     [''None1'', ''person'', ''bicycle'', ''car'', ''motorbike'', ''airplane'', ''bus'',
      ''train'', ''truck'', ''boat'', ''traffic light'', ''fire hydrant'', ''None12'',
      ''stop sign'', ''parking meter'', ''bench'', ''bird'', ''cat'', ''dog'', ''horse'',
      ''sheep'', ''cow'', ''elephant'', ''bear'', ''zebra'', ''giraffe'', ''None'',
      ''backpack'', ''umbrella'', ''None29'', ''Noe30'', ''handbag'', ''tie'', ''suitcase'',
      ''frisbee'', ''skis'', ''snowboard'', ''sports ball'', ''kite'', ''baseball bat'',
      ''baseball glove'', ''skateboard'', ''surfboard'', ''tennis racket'', ''bottle'',
      ''None45'', ''wine glass'', ''cup'', ''fork'', ''knife'', ''spoon'', ''bowl'',
      ''banana'', ''apple'', ''sandwich'', ''orange'', ''broccoli'', ''carrot'', ''hot dog'',
      ''pizza'', ''donut'', ''cake'', ''chair'', ''sofa'', ''pottedplant'', ''bed'',
      ''None66'', ''diningtable'', ''None68'', ''None69'', ''toilet'', ''None71'',
      ''tvmonitor'', ''laptop'', ''mouse'', ''remote'', ''keyboard'', ''cell phone'',
      ''microwave'', ''oven'', ''toaster'', ''sink'', ''refrigerator'', ''None83'', ''book'',
      ''clock'', ''vase'', ''scissors'', ''teddy bear'', ''hair drier'', ''toothbrush'']"

text \<open>Python's \<open>int(x)\<close> on a float truncates towards zero.\<close>

definition py_int :: "real \<Rightarrow> int" where
  "py_int x = (if 0 \<le> x then \<lfloor>x\<rfloor> else \<lceil>x\<rceil>)"

text \<open>
  \<open>colorsys.hsv_to_rgb\<close> of the Python standard library, in exact arithmetic:
  \<^verbatim>\<open>
  if s == 0.0: return v, v, v
  i = int(h*6.0); f = (h*6.0) - i
  p = v*(1.0 - s); q = v*(1.0 - s*f); t = v*(1.0 - s*(1.0-f))
  i = i%6
  if i == 0: return v, t, p
  if i == 1: return q, v, p
  if i == 2: return p, v, t
  if i == 3: return p, q, v
  if i == 4: return t, p, v
  if i == 5: return v, p, q
  \<close>
\<close>

definition hsv_to_rgb :: "real \<Rightarrow> real \<Rightarrow> real \<Rightarrow> real \<times> real \<times> real" where
  "hsv_to_rgb h s v =
     (if s = 0 then (v, v, v)
      else
        let i = py_int (h * 6);
            f = h * 6 - real_of_int i;
            p = v * (1 - s);
            q = v * (1 - s * f);
            t = v * (1 - s * (1 - f));
            i = i mod 6
        in if i = 0 then (v, t, p)
           else if i = 1 then (q, v, p)
           else if i = 2 then (p, v, t)
           else if i = 3 then (p, q, v)
           else if i = 4 then (t, p, v)
           else (v, p, q))"

text \<open>
  The module \<open>random\<close> keeps one global generator.  Its state has type \<open>'g\<close> and is
  passed explicitly; \<open>seed\<close> and \<open>shuffle\<close> are the library's, taken as parameters.
\<close>

record 'g random_module =
  seed :: "int option \<Rightarrow> 'g \<Rightarrow> 'g"
  shuffle :: "color list \<Rightarrow> 'g \<Rightarrow> color list \<times> 'g"

definition generate_colors ::
  "'g random_module \<Rightarrow> 'a list \<Rightarrow> 'g \<Rightarrow> color list \<times> 'g" where
  "generate_colors random class_names g =
     (let hsv_tuples = map (\<lambda>x. (real x / real (length class_names), 1, 1))
                         [0 ..< length class_names];
          colors = map (\<lambda>(h, s, v). hsv_to_rgb h s v) hsv_tuples;
          colors = map (\<lambda>(r, g, b). (py_int (r * 255), py_int (g * 255), py_int (b * 255)))
                     colors;
          g1 = seed random (Some 10101) g;
          (colors, g2) = shuffle random colors g1;
          g3 = seed random None g2
      in (colors, g3))"

section \<open>Frames, tensors and the external libraries\<close>

text \<open>
  A numpy array of numbers, by its shape and its elements in row-major order.  A frame
  has shape \<open>[height, width, 3]\<close>.
\<close>

record ndarray =
  shape :: "nat list"
  elems :: "real list"

type_synonym box = "real \<times> real \<times> real \<times> real"

text \<open>
  The three output tensors of the model for a batch of one image, as the interpreter
  hands them out: \<open>N\<close> boxes (shape \<open>(1, N, 4)\<close>), \<open>N\<close> class indices and \<open>N\<close> scores
  (shape \<open>(1, N)\<close>), the class indices being floats.
\<close>

record raw_output =
  raw_boxes :: "box list"
  raw_classes :: "real list"
  raw_scores :: "real list"

text \<open>
  OpenCV and string formatting are not part of the repository; their functions are
  parameters.  The drawing functions change the image they are given, so they return the
  new image; \<open>cvtColor\<close> and \<open>resize\<close> return a fresh array and leave their argument
  alone.  The font arguments of \<open>getTextSize\<close> and \<open>putText\<close> are constants of the
  source and are left out.
\<close>

record extern =
  cvtColor :: "ndarray \<Rightarrow> error + ndarray"
  resize :: "ndarray \<Rightarrow> int \<times> int \<Rightarrow> error + ndarray"
  rectangle :: "ndarray \<Rightarrow> int \<times> int \<Rightarrow> int \<times> int \<Rightarrow> color \<Rightarrow> int \<Rightarrow> error + ndarray"
  getTextSize :: "string \<Rightarrow> error + int \<times> int"
  putText :: "ndarray \<Rightarrow> string \<Rightarrow> int \<times> int \<Rightarrow> error + ndarray"
  format_label :: "string \<Rightarrow> real \<Rightarrow> string"

section \<open>The detector object\<close>

record ObjDetect =
  min_score :: real
  valid_labels :: "string list"
  interpreter :: "ndarray \<Rightarrow> error + raw_output"
  class_names :: "string list"
  colors :: "color list"

definition default_min_score :: real where
  "default_min_score = 0.6"

text \<open>
  \<open>__init__\<close>: \<open>valid_labels or []\<close> turns \<open>None\<close> into the empty list; loading the
  model (\<open>tflite.Interpreter\<close>, \<open>allocate_tensors\<close>) is the parameter \<open>load\<close> and may fail
  before the color table is made.
\<close>

definition init ::
  "'g random_module \<Rightarrow> (string \<Rightarrow> error + (ndarray \<Rightarrow> error + raw_output)) \<Rightarrow>
   string \<Rightarrow> string list option \<Rightarrow> real \<Rightarrow> 'g \<Rightarrow> (error + ObjDetect) \<times> 'g" where
  "init random load model_path valid_labels' min_score' g =
     (case load model_path of
        Inl e \<Rightarrow> (Inl e, g)
      | Inr interp \<Rightarrow>
          let (cols, g') = generate_colors random class_names_literal g
          in (Inr \<lparr> min_score = min_score',
                    valid_labels = (case valid_labels' of None \<Rightarrow> [] | Some v \<Rightarrow> v),
                    interpreter = interp,
                    class_names = class_names_literal,
                    colors = cols \<rparr>, g'))"

section \<open>Preprocessing and inference\<close>

definition expand_dims :: "ndarray \<Rightarrow> ndarray" where
  "expand_dims img = img \<lparr> shape := 1 # shape img \<rparr>"

text \<open>
  \<open>(2.0 / 255.0) * image - 1.0\<close> works on every element; \<open>astype('float32')\<close> rounds each
  to single precision, which the exact values of the model leave out.
\<close>

definition preprocess_image_for_tflite :: "extern \<Rightarrow> ndarray \<Rightarrow> int \<Rightarrow> error + ndarray" where
  "preprocess_image_for_tflite cv2 img model_image_size =
     (case cvtColor cv2 img of
        Inl e \<Rightarrow> Inl e
      | Inr img \<Rightarrow>
          (case resize cv2 img (model_image_size, model_image_size) of
             Inl e \<Rightarrow> Inl e
           | Inr img \<Rightarrow>
               let img = expand_dims img;
                   img = img \<lparr> elems := map (\<lambda>x. (2 / 255) * x - 1) (elems img) \<rparr>
               in Inr img))"

text \<open>
  \<open>np.squeeze\<close> drops every axis of length one: the batch axis, and the slot axis too
  when the model has a single slot.  Scores and classes then become 0-d arrays, and the
  boxes become one array of four numbers.
\<close>

datatype item = Box box | Coord real

fun squeeze :: "'a list \<Rightarrow> 'a array" where
  "squeeze [x] = Scalar x"
| "squeeze xs = Vec xs"

fun squeeze_boxes :: "box list \<Rightarrow> item list" where
  "squeeze_boxes [(ymin, xmin, ymax, xmax)] = [Coord ymin, Coord xmin, Coord ymax, Coord xmax]"
| "squeeze_boxes bs = map Box bs"

fun map_arr :: "('a \<Rightarrow> 'b) \<Rightarrow> 'a array \<Rightarrow> 'b array" where
  "map_arr f (Scalar x) = Scalar (f x)"
| "map_arr f (Vec xs) = Vec (map f xs)"

text \<open>
  \<open>run_detection\<close> calls the filter with its default arguments \<open>max_boxes=10\<close> and
  \<open>min_score_thresh=0.5\<close>.  \<open>astype(np.int32)\<close> truncates towards zero.
\<close>

definition run_detection ::
  "ObjDetect \<Rightarrow> ndarray \<Rightarrow> error + (real list \<times> item list \<times> int list)" where
  "run_detection self img =
     (case interpreter self img of
        Inl e \<Rightarrow> Inl e
      | Inr out \<Rightarrow>
          let boxes = squeeze_boxes (raw_boxes out);
              scores = squeeze (raw_scores out);
              classes = map_arr py_int (squeeze (map (\<lambda>c. c + 1) (raw_classes out)))
          in non_max_suppression (Some scores) boxes classes (Some 10) 0.5)"

section \<open>Aggregation and drawing\<close>

text \<open>\<open>self.valid_labels and predicted_class not in self.valid_labels\<close>\<close>

definition label_rejected :: "ObjDetect \<Rightarrow> string \<Rightarrow> bool" where
  "label_rejected self predicted_class \<longleftrightarrow>
     valid_labels self \<noteq> [] \<and> predicted_class \<notin> set (valid_labels self)"

text \<open>\<open>enumerate\<close> over a sequence: the pairs \<open>(i, c)\<close> in order.\<close>

definition enumerate_list :: "'a list \<Rightarrow> (nat \<times> 'a) list" where
  "enumerate_list xs = zip [0 ..< length xs] xs"

text \<open>
  The loop of \<open>detect_frame\<close> over \<open>reversed(list(enumerate(out_classes)))\<close>, with the
  dictionary \<open>detections\<close> as accumulator.
\<close>

fun detect_loop ::
  "ObjDetect \<Rightarrow> real list \<Rightarrow> (nat \<times> int) list \<Rightarrow> (string \<rightharpoonup> real) \<Rightarrow>
   error + (string \<rightharpoonup> real)" where
  "detect_loop self out_scores [] detections = Inr detections"
| "detect_loop self out_scores ((i, c) # rest) detections =
     (case list_get (class_names self) c of
        Inl e \<Rightarrow> Inl e
      | Inr predicted_class \<Rightarrow>
          if label_rejected self predicted_class
          then detect_loop self out_scores rest detections
          else if i < length out_scores then
            (let score = out_scores ! i
             in if score < min_score self
                then detect_loop self out_scores rest detections
                else detect_loop self out_scores rest (detections(predicted_class \<mapsto> score)))
          else Inl IndexError)"

text \<open>
  \<open>draw_boxes\<close> changes \<open>image\<close> in place: it returns the image as it is when the
  function ends or raises, together with the error if any.
\<close>

definition clamp_box :: "nat \<Rightarrow> nat \<Rightarrow> box \<Rightarrow> int \<times> int \<times> int \<times> int" where
  "clamp_box h w b =
     (case b of (ymin, xmin, ymax, xmax) \<Rightarrow>
        let left = xmin * real w; right = xmax * real w;
            top' = ymin * real h; bottom = ymax * real h;
            top' = max 0 \<lfloor>top' + 0.5\<rfloor>;
            left = max 0 \<lfloor>left + 0.5\<rfloor>;
            bottom = min (int h) \<lfloor>bottom + 0.5\<rfloor>;
            right = min (int w) \<lfloor>right + 0.5\<rfloor>
        in (left, top', right, bottom))"

fun draw_loop ::
  "extern \<Rightarrow> ObjDetect \<Rightarrow> nat \<Rightarrow> nat \<Rightarrow> real list \<Rightarrow> item list \<Rightarrow>
   (nat \<times> int) list \<Rightarrow> ndarray \<Rightarrow> ndarray \<times> error option" where
  "draw_loop cv2 self h w out_scores out_boxes [] img = (img, None)"
| "draw_loop cv2 self h w out_scores out_boxes ((i, c) # rest) img =
     (case list_get (class_names self) c of
        Inl e \<Rightarrow> (img, Some e)
      | Inr predicted_class \<Rightarrow>
          if label_rejected self predicted_class
          then draw_loop cv2 self h w out_scores out_boxes rest img
          else if \<not> (i < length out_boxes \<and> i < length out_scores)
          then (img, Some IndexError)
          else
            let label = format_label cv2 predicted_class (out_scores ! i)
            in (case out_boxes ! i of
                  Coord x \<Rightarrow> (img, Some TypeError)
                | Box bx \<Rightarrow>
                    (case clamp_box h w bx of (left, top', right, bottom) \<Rightarrow>
                    (case list_get (colors self) c of
                       Inl e \<Rightarrow> (img, Some e)
                     | Inr (r, g, b) \<Rightarrow>
                    (case rectangle cv2 img (left, top') (right, bottom) (b, g, r) 6 of
                       Inl e \<Rightarrow> (img, Some e)
                     | Inr img \<Rightarrow>
                    (case getTextSize cv2 label of
                       Inl e \<Rightarrow> (img, Some e)
                     | Inr (tw, th) \<Rightarrow>
                    (case rectangle cv2 img (left - 3, top' - 3)
                            (left + 3 + tw, top' - 5 - th) (b, g, r) (- 1) of
                       Inl e \<Rightarrow> (img, Some e)
                     | Inr img \<Rightarrow>
                    (case putText cv2 img label (left, top' - 4) of
                       Inl e \<Rightarrow> (img, Some e)
                     | Inr img \<Rightarrow>
                         draw_loop cv2 self h w out_scores out_boxes rest img))))))))"

definition draw_boxes ::
  "extern \<Rightarrow> ObjDetect \<Rightarrow> ndarray \<Rightarrow> real list \<Rightarrow> item list \<Rightarrow> int list \<Rightarrow>
   ndarray \<times> error option" where
  "draw_boxes cv2 self img out_scores out_boxes out_classes =
     (case shape img of
        [h, w, ch] \<Rightarrow>
          draw_loop cv2 self h w out_scores out_boxes (rev (enumerate_list out_classes)) img
      | _ \<Rightarrow> (img, Some ValueError))"

section \<open>\<open>detect_frame\<close>\<close>

text \<open>
  The frame is state: \<open>detect_frame\<close> returns the frame as the call leaves it, and either
  the error raised or the dictionary of detections.
\<close>

definition detect_frame ::
  "extern \<Rightarrow> ObjDetect \<Rightarrow> ndarray \<Rightarrow> bool \<Rightarrow> ndarray \<times> (error + (string \<rightharpoonup> real))" where
  "detect_frame cv2 self frame draw =
     (case preprocess_image_for_tflite cv2 frame 300 of
        Inl e \<Rightarrow> (frame, Inl e)
      | Inr image_data \<Rightarrow>
          (case run_detection self image_data of
             Inl e \<Rightarrow> (frame, Inl e)
           | Inr (out_scores, out_boxes, out_classes) \<Rightarrow>
               (case detect_loop self out_scores (rev (enumerate_list out_classes)) Map.empty of
                  Inl e \<Rightarrow> (frame, Inl e)
                | Inr detections \<Rightarrow>
                    if draw then
                      (case draw_boxes cv2 self frame out_scores out_boxes out_classes of
                         (frame', Some e) \<Rightarrow> (frame', Inl e)
                       | (frame', None) \<Rightarrow> (frame', Inr detections))
                    else (frame, Inr detections))))"

section \<open>What the aggregation keeps\<close>

text \<open>
  The entry that one pass of the loop of \<open>detect_frame\<close> writes into \<open>detections\<close>
  for the pair \<open>(i, c)\<close>, if it writes one: the label of \<open>c\<close> with the score at \<open>i\<close>,
  unless the label is rejected or the score is below \<open>min_score\<close>.
\<close>

definition accepted :: "ObjDetect \<Rightarrow> real list \<Rightarrow> nat \<times> int \<Rightarrow> (string \<times> real) option" where
  "accepted self out_scores p =
     (case p of (i, c) \<Rightarrow>
        (case list_get (class_names self) c of
           Inl e \<Rightarrow> None
         | Inr l \<Rightarrow>
             if label_rejected self l \<or> out_scores ! i < min_score self then None
             else Some (l, out_scores ! i)))"

section \<open>Concrete instances\<close>

text \<open>
  Instances of the external parameters for the examples: an OpenCV whose conversions
  succeed and return their input and whose \<open>rectangle\<close> paints every element, a detector
  whose interpreter returns a fixed output of two slots, a one-pixel frame, an interpreter
  that raises, and a random module whose \<open>shuffle\<close> reverses the list.
\<close>

definition plain_cv2 :: extern where
  "plain_cv2 =
     \<lparr> cvtColor = (\<lambda>img. Inr img),
       resize = (\<lambda>img sz. Inr img),
       rectangle = (\<lambda>img p q col t. Inr (img \<lparr> elems := map (\<lambda>_. 255) (elems img) \<rparr>)),
       getTextSize = (\<lambda>s. Inr (8 * int (length s), 8)),
       putText = (\<lambda>img s p. Inr img),
       format_label = (\<lambda>s x. s) \<rparr>"

definition detector :: "string list \<Rightarrow> real \<Rightarrow> raw_output \<Rightarrow> ObjDetect" where
  "detector labels ms out =
     \<lparr> min_score = ms, valid_labels = labels, interpreter = (\<lambda>t. Inr out),
       class_names = class_names_literal, colors = replicate 91 (0, 0, 0) \<rparr>"

definition two_slots :: "real \<times> real \<Rightarrow> real \<times> real \<Rightarrow> raw_output" where
  "two_slots a b =
     \<lparr> raw_boxes = [(0, 0, 1, 1), (0, 0, 1, 1)],
       raw_classes = [fst a, fst b], raw_scores = [snd a, snd b] \<rparr>"

definition black_frame :: ndarray where
  "black_frame = \<lparr> shape = [1, 1, 3], elems = [0, 0, 0] \<rparr>"

definition failing_interpreter :: "ndarray \<Rightarrow> error + raw_output" where
  "failing_interpreter t = Inl InterpreterError"

definition reversing_random :: "nat random_module" where
  "reversing_random =
     \<lparr> seed = (\<lambda>a g. case a of None \<Rightarrow> Suc g | Some n \<Rightarrow> nat \<bar>n\<bar>),
       shuffle = (\<lambda>xs g. (rev xs, Suc g)) \<rparr>"

section \<open>Properties of the result filter\<close>
lemma nms_count_le: "nms_count max_boxes n \<le> n"
  by (simp add: nms_count_def Let_def split: option.splits)

lemma nms_count_falsy:
  "max_boxes = None \<or> max_boxes = Some 0 \<Longrightarrow> nms_count max_boxes n = n"
  by (auto simp: nms_count_def)

lemma nms_count_pos: "0 < k \<Longrightarrow> nms_count (Some k) n = min (nat k) n"
  by (auto simp: nms_count_def Let_def min_def)

lemma nms_loop_result:
  assumes "nms_loop scores boxes classes thr is (os, ob, oc) = Inr (os', ob', oc')"
  shows "\<exists>ss bs cs.
           os' = os @ ss \<and> ob' = ob @ bs \<and> oc' = oc @ cs \<and>
           length bs = length ss \<and> length cs = length ss \<and>
           (\<forall>s \<in> set ss. thr < s) \<and>
           map Some (zip ss (zip bs cs)) =
             map (entry_at scores boxes classes) (filter (exceeds scores thr) is)"
  using assms
proof (induction "is" arbitrary: os ob oc)
  case Nil
  then show ?case by simp
next
  case (Cons i "is")
  from Cons.prems obtain sc where sc: "scores = Some sc"
    by (cases scores) (auto split: if_splits)
  from Cons.prems sc obtain s where s: "arr_get sc i = Inr s"
    by (cases "arr_get sc i") auto
  show ?case
  proof (cases "thr < s")
    case False
    with Cons.prems sc s
    have "nms_loop scores boxes classes thr is (os, ob, oc) = Inr (os', ob', oc')"
      by simp
    from Cons.IH [OF this] False sc s show ?thesis
      by (simp add: exceeds_def)
  next
    case True
    with Cons.prems sc s have i: "i < length boxes"
      by (auto split: if_splits)
    from Cons.prems sc s True i obtain c where c: "arr_get classes i = Inr c"
      by (cases "arr_get classes i") auto
    from Cons.prems sc s True i c
    have "nms_loop scores boxes classes thr is (os @ [s], ob @ [boxes ! i], oc @ [c])
            = Inr (os', ob', oc')"
      by simp
    from Cons.IH [OF this] obtain ss bs cs where r:
      "os' = (os @ [s]) @ ss" "ob' = (ob @ [boxes ! i]) @ bs" "oc' = (oc @ [c]) @ cs"
      "length bs = length ss" "length cs = length ss" "\<forall>s \<in> set ss. thr < s"
      "map Some (zip ss (zip bs cs)) =
         map (entry_at scores boxes classes) (filter (exceeds scores thr) is)"
      by blast
    have e: "exceeds scores thr i" "entry_at scores boxes classes i = Some (s, boxes ! i, c)"
      using sc s True i c by (simp_all add: exceeds_def entry_at_def)
    show ?thesis
      apply (rule exI [of _ "s # ss"])
      apply (rule exI [of _ "(boxes ! i) # bs"])
      apply (rule exI [of _ "c # cs"])
      using r e True by simp
  qed
qed

lemma non_max_suppression_result:
  assumes "non_max_suppression scores boxes classes max_boxes thr = Inr (os, ob, oc)"
  shows "length ob = length os \<and> length oc = length os \<and>
         (\<forall>s \<in> set os. thr < s) \<and>
         map Some (zip os (zip ob oc)) =
           map (entry_at scores boxes classes)
             (filter (exceeds scores thr) [0 ..< nms_count max_boxes (length boxes)])"
  using nms_loop_result [of scores boxes classes thr _ "[]" "[]" "[]" os ob oc] assms
  unfolding non_max_suppression_def by auto

lemma non_max_suppression_length:
  assumes "non_max_suppression scores boxes classes max_boxes thr = Inr (os, ob, oc)"
  shows "length os \<le> nms_count max_boxes (length boxes)"
proof -
  let ?ks = "filter (exceeds scores thr) [0 ..< nms_count max_boxes (length boxes)]"
  from non_max_suppression_result [OF assms]
  have l: "length ob = length os" "length oc = length os"
    and m: "map Some (zip os (zip ob oc)) = map (entry_at scores boxes classes) ?ks"
    by blast+
  from m have "length (map Some (zip os (zip ob oc))) = length ?ks"
    by (metis length_map)
  with l have "length os = length ?ks" by simp
  also have "\<dots> \<le> length [0 ..< nms_count max_boxes (length boxes)]"
    by (rule length_filter_le)
  finally show ?thesis by simp
qed

lemma nms_loop_Vec:
  assumes "\<forall>i \<in> set is. i < length ss \<and> i < length boxes \<and> i < length cs"
  shows "nms_loop (Some (Vec ss)) boxes (Vec cs) thr is (os, ob, oc) =
           Inr (os @ map (nth ss) (filter (\<lambda>i. thr < ss ! i) is),
                ob @ map (nth boxes) (filter (\<lambda>i. thr < ss ! i) is),
                oc @ map (nth cs) (filter (\<lambda>i. thr < ss ! i) is))"
  using assms by (induction "is" arbitrary: os ob oc) auto

lemma non_max_suppression_Vec:
  assumes "length ss = length boxes" "length cs = length boxes"
  shows "non_max_suppression (Some (Vec ss)) boxes (Vec cs) max_boxes thr =
           (let ks = filter (\<lambda>i. thr < ss ! i) [0 ..< nms_count max_boxes (length boxes)]
            in Inr (map (nth ss) ks, map (nth boxes) ks, map (nth cs) ks))"
proof -
  have "\<forall>i \<in> set [0 ..< nms_count max_boxes (length boxes)].
          i < length ss \<and> i < length boxes \<and> i < length cs"
    using assms nms_count_le [of max_boxes "length boxes"] by auto
  from nms_loop_Vec [OF this, of thr "[]" "[]" "[]"] show ?thesis
    by (simp add: non_max_suppression_def Let_def)
qed

text \<open>
  Claim C1.  For parallel sequences of equal length the filter returns.  With a falsy cap
  (\<open>None\<close> or \<open>0\<close>) it behaves as with the cap \<open>len(boxes)\<close>: the result has at most
  \<open>len(boxes)\<close> entries, and all of them when every score exceeds the threshold.  With
  a cap \<open>k > 0\<close> it has at most \<open>min(k, len(boxes))\<close> entries.
\<close>

theorem non_max_suppression_cap:
  "(length ss = length boxes \<and> length cs = length boxes \<longrightarrow>
      (\<exists>r. non_max_suppression (Some (Vec ss)) boxes (Vec cs) max_boxes thr = Inr r)) \<and>
   (length ss = length boxes \<and> length cs = length boxes \<and> (\<forall>s \<in> set ss. thr < s) \<and>
    (max_boxes = None \<or> max_boxes = Some 0) \<longrightarrow>
      non_max_suppression (Some (Vec ss)) boxes (Vec cs) max_boxes thr = Inr (ss, boxes, cs)) \<and>
   (non_max_suppression scores boxes classes max_boxes thr = Inr (os, ob, oc) \<longrightarrow>
      length ob = length os \<and> length oc = length os \<and> length os \<le> length boxes \<and>
      (max_boxes = None \<or> max_boxes = Some 0 \<longrightarrow>
         non_max_suppression scores boxes classes (Some (int (length boxes))) thr
           = Inr (os, ob, oc)) \<and>
      (\<forall>k. max_boxes = Some k \<and> 0 < k \<longrightarrow> length os \<le> min (nat k) (length boxes)))"
proof (intro conjI impI)
  assume "length ss = length boxes \<and> length cs = length boxes"
  then show "\<exists>r. non_max_suppression (Some (Vec ss)) boxes (Vec cs) max_boxes thr = Inr r"
    by (simp add: non_max_suppression_Vec Let_def)
next
  assume a: "length ss = length boxes \<and> length cs = length boxes \<and> (\<forall>s \<in> set ss. thr < s) \<and>
    (max_boxes = None \<or> max_boxes = Some 0)"
  then have n: "nms_count max_boxes (length boxes) = length boxes"
    by (simp add: nms_count_falsy)
  from a have "filter (\<lambda>i. thr < ss ! i) [0 ..< length boxes] = [0 ..< length boxes]"
    by (auto simp: filter_id_conv)
  with a n show "non_max_suppression (Some (Vec ss)) boxes (Vec cs) max_boxes thr = Inr (ss, boxes, cs)"
    by (simp add: non_max_suppression_Vec Let_def map_nth) (metis map_nth)
next
  assume r: "non_max_suppression scores boxes classes max_boxes thr = Inr (os, ob, oc)"
  from non_max_suppression_result [OF r]
  show "length ob = length os" "length oc = length os" by simp_all
  from non_max_suppression_length [OF r] nms_count_le [of max_boxes "length boxes"]
  show "length os \<le> length boxes" by simp
  show "\<forall>k. max_boxes = Some k \<and> 0 < k \<longrightarrow> length os \<le> min (nat k) (length boxes)"
    using non_max_suppression_length [OF r] by (auto simp: nms_count_pos)
  assume "max_boxes = None \<or> max_boxes = Some 0"
  then have "nms_count max_boxes (length boxes) = nms_count (Some (int (length boxes))) (length boxes)"
    by (auto simp: nms_count_def)
  with r show "non_max_suppression scores boxes classes (Some (int (length boxes))) thr
           = Inr (os, ob, oc)"
    by (simp add: non_max_suppression_def)
qed

theorem non_max_suppression_cap_witness:
  "non_max_suppression (Some (Vec [0.9, 0.8, 0.7])) [10, 11, 12 :: nat] (Vec [1, 2, 3 :: int]) (Some 0) 0.5
     = Inr ([0.9, 0.8, 0.7], [10, 11, 12], [1, 2, 3]) \<and>
   non_max_suppression (Some (Vec [0.9, 0.8, 0.7])) [10, 11, 12 :: nat] (Vec [1, 2, 3 :: int]) (Some 2) 0.5
     = Inr ([0.9, 0.8], [10, 11], [1, 2]) \<and>
   length [0.9, 0.8 :: real] \<le> min (nat 2) (length [10, 11, 12 :: nat])"
  using non_max_suppression_cap [of "[0.9, 0.8, 0.7]" "[10, 11, 12 :: nat]" "[1, 2, 3 :: int]"
          "Some 0" "0.5" "Some (Vec [0.9, 0.8, 0.7])" "Vec [1, 2, 3]" "[0.9, 0.8, 0.7]" "[10, 11, 12]" "[1, 2, 3]"]
    non_max_suppression_cap [of "[0.9, 0.8, 0.7]" "[10, 11, 12 :: nat]" "[1, 2, 3 :: int]"
          "Some 2" "0.5" "Some (Vec [0.9, 0.8, 0.7])" "Vec [1, 2, 3]" "[0.9, 0.8]" "[10, 11]" "[1, 2]"]
  by (simp add: non_max_suppression_def nms_count_def upt_rec)

text \<open>
  Claim C2.  Every returned score is strictly greater than the threshold.  The returned
  entries are the entries of the input at the indices below the cap whose score exceeds
  the threshold, in increasing index order: kept entries keep their relative order.
\<close>

theorem non_max_suppression_threshold:
  assumes "non_max_suppression scores boxes classes max_boxes thr = Inr (os, ob, oc)"
  shows "(\<forall>s \<in> set os. thr < s) \<and> \<not> (\<exists>s \<in> set os. s \<le> thr) \<and>
         length ob = length os \<and> length oc = length os \<and>
         map Some (zip os (zip ob oc)) =
           map (entry_at scores boxes classes)
             (filter (exceeds scores thr) [0 ..< nms_count max_boxes (length boxes)])"
  using non_max_suppression_result [OF assms] by auto

theorem non_max_suppression_threshold_witness:
  "non_max_suppression (Some (Vec [0.9, 0.5, 0.7])) [10, 11, 12 :: nat] (Vec [1, 2, 3 :: int]) (Some 10) 0.5
     = Inr ([0.9, 0.7], [10, 12], [1, 3]) \<and>
   (0.5 :: real) < 0.9 \<and> (0.5 :: real) < 0.7 \<and>
   map Some (zip [0.9, 0.7] (zip [10, 12] [1, 3])) =
     map (entry_at (Some (Vec [0.9, 0.5, 0.7])) [10, 11, 12 :: nat] (Vec [1, 2, 3 :: int]))
       (filter (exceeds (Some (Vec [0.9, 0.5, 0.7])) 0.5) [0 ..< 3])"
  using non_max_suppression_threshold [of "Some (Vec [0.9, 0.5, 0.7])" "[10, 11, 12 :: nat]"
     "Vec [1, 2, 3 :: int]" "Some 10" "0.5" "[0.9, 0.7]" "[10, 12]" "[1, 3]"]
  by (simp add: non_max_suppression_def nms_count_def upt_rec entry_at_def exceeds_def)

section \<open>Properties of the aggregation\<close>

lemma detect_loop_result:
  assumes "detect_loop self os ps m = Inr d"
  shows "d = m ++ map_of (rev (List.map_filter (accepted self os) ps)) \<and>
         (\<forall>(i, c) \<in> set ps. \<exists>l. list_get (class_names self) c = Inr l)"
  using assms
proof (induction ps arbitrary: m)
  case Nil
  then show ?case by simp
next
  case (Cons p ps)
  obtain i c where p: "p = (i, c)" by (cases p)
  from Cons.prems p obtain l where l: "list_get (class_names self) c = Inr l"
    by (cases "list_get (class_names self) c") auto
  show ?case
  proof (cases "label_rejected self l")
    case True
    with Cons.prems p l have "detect_loop self os ps m = Inr d" by simp
    from Cons.IH [OF this] True p l show ?thesis
      by (simp add: accepted_def)
  next
    case False
    with Cons.prems p l have i: "i < length os" by (auto split: if_splits)
    show ?thesis
    proof (cases "os ! i < min_score self")
      case True
      with Cons.prems p l False i have "detect_loop self os ps m = Inr d" by simp
      from Cons.IH [OF this] True p l show ?thesis
        by (simp add: accepted_def)
    next
      case nb: False
      with Cons.prems p l False i
      have "detect_loop self os ps (m(l \<mapsto> os ! i)) = Inr d" by (simp add: Let_def)
      from Cons.IH [OF this] nb False p l show ?thesis
        by (simp add: accepted_def map_add_upd_left fun_eq_iff map_add_def split: option.splits)
    qed
  qed
qed

lemma map_filter_rev: "List.map_filter f (rev xs) = rev (List.map_filter f xs)"
  by (simp add: List.map_filter_def rev_map rev_filter)

lemma detect_loop_map_of:
  assumes "detect_loop self os (rev (enumerate_list oc)) Map.empty = Inr d"
  shows "d = map_of (List.map_filter (accepted self os) (enumerate_list oc))"
    and "\<forall>i < length oc. \<exists>l. list_get (class_names self) (oc ! i) = Inr l"
proof -
  from detect_loop_result [OF assms]
  have a: "d = Map.empty ++ map_of (rev (List.map_filter (accepted self os) (rev (enumerate_list oc))))"
    and b: "\<forall>(i, c) \<in> set (rev (enumerate_list oc)). \<exists>l. list_get (class_names self) c = Inr l"
    by blast+
  from a show "d = map_of (List.map_filter (accepted self os) (enumerate_list oc))"
    by (simp add: map_filter_rev)
  show "\<forall>i < length oc. \<exists>l. list_get (class_names self) (oc ! i) = Inr l"
  proof (intro allI impI)
    fix i assume "i < length oc"
    then have "(i, oc ! i) \<in> set (rev (enumerate_list oc))"
      by (auto simp: enumerate_list_def in_set_zip intro!: exI [of _ i])
    with b show "\<exists>l. list_get (class_names self) (oc ! i) = Inr l" by blast
  qed
qed

lemma map_of_map_filter_first:
  "map_of (List.map_filter f xs) k = Some v \<longleftrightarrow>
     (\<exists>j < length xs. f (xs ! j) = Some (k, v) \<and> (\<forall>j' < j. \<forall>v'. f (xs ! j') \<noteq> Some (k, v')))"
proof (induction xs)
  case Nil
  then show ?case by simp
next
  case (Cons x xs)
  show ?case
  proof (cases "\<exists>v'. f x = Some (k, v')")
    case True
    then obtain v' where v': "f x = Some (k, v')" by blast
    then have L: "map_of (List.map_filter f (x # xs)) k = Some v'"
      by simp
    show ?thesis
    proof
      assume "map_of (List.map_filter f (x # xs)) k = Some v"
      with L have "v' = v" by simp
      with v' show "\<exists>j < length (x # xs). f ((x # xs) ! j) = Some (k, v) \<and>
          (\<forall>j' < j. \<forall>v'. f ((x # xs) ! j') \<noteq> Some (k, v'))"
        by (intro exI [of _ 0]) simp
    next
      assume "\<exists>j < length (x # xs). f ((x # xs) ! j) = Some (k, v) \<and>
          (\<forall>j' < j. \<forall>v'. f ((x # xs) ! j') \<noteq> Some (k, v'))"
      then obtain j where j: "j < length (x # xs)" "f ((x # xs) ! j) = Some (k, v)"
        "\<forall>j' < j. \<forall>v'. f ((x # xs) ! j') \<noteq> Some (k, v')" by blast
      have "j = 0"
      proof (rule ccontr)
        assume "j \<noteq> 0"
        then have "0 < j" by simp
        with j(3) have "f ((x # xs) ! 0) \<noteq> Some (k, v')" by blast
        with v' show False by simp
      qed
      with j(2) v' L show "map_of (List.map_filter f (x # xs)) k = Some v" by simp
    qed
  next
    case False
    then have L: "map_of (List.map_filter f (x # xs)) k = map_of (List.map_filter f xs) k"
      by (cases "f x") auto
    have "(\<exists>j < length (x # xs). f ((x # xs) ! j) = Some (k, v) \<and>
          (\<forall>j' < j. \<forall>v'. f ((x # xs) ! j') \<noteq> Some (k, v')))
       \<longleftrightarrow> (\<exists>j < length xs. f (xs ! j) = Some (k, v) \<and>
          (\<forall>j' < j. \<forall>v'. f (xs ! j') \<noteq> Some (k, v')))" (is "?A \<longleftrightarrow> ?B")
    proof
      assume ?A
      then obtain j where j: "j < length (x # xs)" "f ((x # xs) ! j) = Some (k, v)"
        "\<forall>j' < j. \<forall>v'. f ((x # xs) ! j') \<noteq> Some (k, v')" by blast
      from j(2) False obtain j0 where j0: "j = Suc j0" by (cases j) auto
      have "\<forall>j' < j0. \<forall>v'. f (xs ! j') \<noteq> Some (k, v')"
      proof (intro allI impI)
        fix j' v' assume "j' < j0"
        then have "Suc j' < j" using j0 by simp
        with j(3) have "f ((x # xs) ! Suc j') \<noteq> Some (k, v')" by blast
        then show "f (xs ! j') \<noteq> Some (k, v')" by simp
      qed
      with j j0 show ?B by (intro exI [of _ j0]) simp
    next
      assume ?B
      then obtain j where j: "j < length xs" "f (xs ! j) = Some (k, v)"
        "\<forall>j' < j. \<forall>v'. f (xs ! j') \<noteq> Some (k, v')" by blast
      have "\<forall>j' < Suc j. \<forall>v'. f ((x # xs) ! j') \<noteq> Some (k, v')"
      proof (intro allI impI)
        fix j' v' assume a: "j' < Suc j"
        show "f ((x # xs) ! j') \<noteq> Some (k, v')"
        proof (cases j')
          case 0
          with False show ?thesis by simp
        next
          case (Suc n)
          with a j(3) show ?thesis by simp
        qed
      qed
      with j show ?A by (intro exI [of _ "Suc j"]) simp
    qed
    with L Cons.IH show ?thesis by simp
  qed
qed

lemma run_detection_result:
  assumes "run_detection self t = Inr (os, ob, oc)"
  shows "length ob = length os" "length oc = length os" "length os \<le> 10" "\<forall>s \<in> set os. 0.5 < s"
proof -
  from assms obtain out where out: "interpreter self t = Inr out"
    by (cases "interpreter self t") (auto simp: run_detection_def)
  let ?b = "squeeze_boxes (raw_boxes out)"
  from assms out
  have n: "non_max_suppression (Some (squeeze (raw_scores out))) ?b
             (map_arr py_int (squeeze (map (\<lambda>c. c + 1) (raw_classes out)))) (Some 10) 0.5
           = Inr (os, ob, oc)"
    by (simp add: run_detection_def Let_def)
  from non_max_suppression_result [OF n]
  show "length ob = length os" "length oc = length os" "\<forall>s \<in> set os. 0.5 < s" by simp_all
  from non_max_suppression_length [OF n] show "length os \<le> 10"
    by (simp add: nms_count_pos)
qed

lemma detect_frame_Inr:
  assumes "detect_frame cv2 self frame draw = (frame', Inr d)"
  shows "\<exists>t os ob oc. preprocess_image_for_tflite cv2 frame 300 = Inr t \<and>
           run_detection self t = Inr (os, ob, oc) \<and>
           detect_loop self os (rev (enumerate_list oc)) Map.empty = Inr d"
  using assms unfolding detect_frame_def
  by (auto split: sum.splits prod.splits if_splits option.splits)

lemma accepted_Some:
  "accepted self os (i, c) = Some (l, v) \<longleftrightarrow>
     list_get (class_names self) c = Inr l \<and> \<not> label_rejected self l \<and>
     \<not> os ! i < min_score self \<and> v = os ! i"
  by (auto simp: accepted_def split: sum.splits)

lemma enumerate_list_nth: "i < length xs \<Longrightarrow> enumerate_list xs ! i = (i, xs ! i)"
  by (simp add: enumerate_list_def)

lemma length_enumerate_list: "length (enumerate_list xs) = length xs"
  by (simp add: enumerate_list_def)

lemma detect_loop_first:
  assumes "detect_loop self os (rev (enumerate_list oc)) Map.empty = Inr d"
  shows "d l = Some v \<longleftrightarrow>
     (\<exists>i < length oc.
        list_get (class_names self) (oc ! i) = Inr l \<and> \<not> label_rejected self l \<and>
        \<not> os ! i < min_score self \<and> v = os ! i \<and>
        (\<forall>j < i. list_get (class_names self) (oc ! j) = Inr l \<longrightarrow> os ! j < min_score self))"
proof -
  have d: "d = map_of (List.map_filter (accepted self os) (enumerate_list oc))"
    by (rule detect_loop_map_of(1) [OF assms])
  have "d l = Some v \<longleftrightarrow>
     (\<exists>j < length oc. accepted self os (j, oc ! j) = Some (l, v) \<and>
        (\<forall>j' < j. \<forall>v'. accepted self os (j', oc ! j') \<noteq> Some (l, v')))"
    unfolding d map_of_map_filter_first length_enumerate_list
    by (auto simp: enumerate_list_nth)
  also have "\<dots> \<longleftrightarrow> (\<exists>i < length oc.
        list_get (class_names self) (oc ! i) = Inr l \<and> \<not> label_rejected self l \<and>
        \<not> os ! i < min_score self \<and> v = os ! i \<and>
        (\<forall>j < i. list_get (class_names self) (oc ! j) = Inr l \<longrightarrow> os ! j < min_score self))"
    unfolding accepted_Some by (rule ex_cong1) auto
  finally show ?thesis .
qed

lemma set_map_filter: "set (List.map_filter f xs) = {y. \<exists>x \<in> set xs. f x = Some y}"
  by (induction xs) (auto split: option.splits)

lemma set_enumerate_list: "set (enumerate_list xs) = {(i, xs ! i) | i. i < length xs}"
proof -
  have "\<And>i. i < length xs \<Longrightarrow> \<exists>n. [0..<length xs] ! n = i \<and> xs ! n = xs ! i \<and> n < length xs"
    by (rule_tac x = i in exI) simp
  then show ?thesis
    by (auto simp: enumerate_list_def in_set_zip)
qed

lemma detect_loop_dom:
  assumes "detect_loop self os (rev (enumerate_list oc)) Map.empty = Inr d"
  shows "l \<in> dom d \<longleftrightarrow>
     (\<exists>i < length oc. list_get (class_names self) (oc ! i) = Inr l \<and>
        \<not> label_rejected self l \<and> \<not> os ! i < min_score self)"
proof -
  have d: "d = map_of (List.map_filter (accepted self os) (enumerate_list oc))"
    by (rule detect_loop_map_of(1) [OF assms])
  have "l \<in> dom d \<longleftrightarrow> (\<exists>v. (l, v) \<in> set (List.map_filter (accepted self os) (enumerate_list oc)))"
    unfolding d by (force simp: dom_map_of_conv_image_fst image_iff)
  also have "\<dots> \<longleftrightarrow> (\<exists>v. \<exists>p \<in> set (enumerate_list oc). accepted self os p = Some (l, v))"
    by (simp add: set_map_filter)
  also have "\<dots> \<longleftrightarrow> (\<exists>v. \<exists>i < length oc. accepted self os (i, oc ! i) = Some (l, v))"
    by (simp add: set_enumerate_list)
  also have "\<dots> \<longleftrightarrow> (\<exists>i < length oc. list_get (class_names self) (oc ! i) = Inr l \<and>
        \<not> label_rejected self l \<and> \<not> os ! i < min_score self)"
    unfolding accepted_Some by auto
  finally show ?thesis .
qed

lemma detect_loop_card:
  assumes "detect_loop self os (rev (enumerate_list oc)) Map.empty = Inr d"
  shows "finite (dom d)" "card (dom d) \<le> length oc"
proof -
  let ?k = "List.map_filter (accepted self os) (enumerate_list oc)"
  have d: "d = map_of ?k"
    by (rule detect_loop_map_of(1) [OF assms])
  show "finite (dom d)" unfolding d by (rule finite_dom_map_of)
  have "card (dom d) = card (fst ` set ?k)" unfolding d by (simp add: dom_map_of_conv_image_fst)
  also have "\<dots> \<le> card (set ?k)" by (rule card_image_le) simp
  also have "\<dots> \<le> length ?k" by (rule card_length)
  also have "\<dots> \<le> length (enumerate_list oc)"
    by (simp add: List.map_filter_def)
  finally show "card (dom d) \<le> length oc" by (simp add: length_enumerate_list)
qed

lemma init_fields:
  "case fst (init random load path labels ms g) of
     Inl e \<Rightarrow> True
   | Inr s \<Rightarrow> valid_labels s = (case labels of None \<Rightarrow> [] | Some v \<Rightarrow> v) \<and>
             class_names s = class_names_literal \<and> min_score s = ms"
  by (simp add: init_def split_def Let_def split: sum.splits)

lemmas run_simps = detect_frame_def preprocess_image_for_tflite_def plain_cv2_def detector_def
  two_slots_def black_frame_def run_detection_def non_max_suppression_def nms_count_def
  default_min_score_def enumerate_list_def list_get_def class_names_literal_def
  label_rejected_def upt_rec py_int_def expand_dims_def




text \<open>
  Claim C4.  With a non-empty allow-list every key of the returned mapping is in the
  allow-list.  With an empty allow-list, which is also what an absent one becomes in
  \<open>__init__\<close>, every filtered detection whose score is not below \<open>min_score\<close> has its
  label among the keys.
\<close>

theorem detect_frame_allow_list:
  assumes "detect_frame cv2 self frame draw = (frame', Inr d)"
  shows "(valid_labels self \<noteq> [] \<longrightarrow> dom d \<subseteq> set (valid_labels self)) \<and>
         (valid_labels self = [] \<longrightarrow>
            (\<forall>t os ob oc i l.
               preprocess_image_for_tflite cv2 frame 300 = Inr t \<and>
               run_detection self t = Inr (os, ob, oc) \<and> i < length oc \<and>
               list_get (class_names self) (oc ! i) = Inr l \<and> \<not> os ! i < min_score self
               \<longrightarrow> l \<in> dom d)) \<and>
         (case fst (init random load path None ms g) of
            Inl e \<Rightarrow> True
          | Inr self' \<Rightarrow> valid_labels self' = [])"
proof -
  from detect_frame_Inr [OF assms] obtain t os ob oc where
    t: "preprocess_image_for_tflite cv2 frame 300 = Inr t" and
    r: "run_detection self t = Inr (os, ob, oc)" and
    l: "detect_loop self os (rev (enumerate_list oc)) Map.empty = Inr d" by blast
  have "valid_labels self \<noteq> [] \<longrightarrow> dom d \<subseteq> set (valid_labels self)"
    using detect_loop_dom [OF l] by (auto simp: label_rejected_def)
  moreover have "valid_labels self = [] \<longrightarrow>
            (\<forall>t os ob oc i l.
               preprocess_image_for_tflite cv2 frame 300 = Inr t \<and>
               run_detection self t = Inr (os, ob, oc) \<and> i < length oc \<and>
               list_get (class_names self) (oc ! i) = Inr l \<and> \<not> os ! i < min_score self
               \<longrightarrow> l \<in> dom d)"
  proof (intro impI allI)
    fix t' os' ob' oc' i la
    assume e: "valid_labels self = []"
    assume a: "preprocess_image_for_tflite cv2 frame 300 = Inr t' \<and>
               run_detection self t' = Inr (os', ob', oc') \<and> i < length oc' \<and>
               list_get (class_names self) (oc' ! i) = Inr la \<and> \<not> os' ! i < min_score self"
    with t r have "os' = os" "oc' = oc" by simp_all
    with a e show "la \<in> dom d"
      unfolding detect_loop_dom [OF l] by (auto simp: label_rejected_def)
  qed
  moreover have "case fst (init random load path None ms g) of
                   Inl e \<Rightarrow> True
                 | Inr self' \<Rightarrow> valid_labels self' = []"
    using init_fields [where random = random and load = load and path = path and labels = None
        and ms = ms and g = g]
    by (simp split: sum.splits)
  ultimately show ?thesis by blast
qed

theorem detect_frame_allow_list_witness:
  "detect_frame plain_cv2 (detector [''car''] 0.6 (two_slots (2, 0.7) (17, 0.9))) black_frame False
     = (black_frame, Inr [''car'' \<mapsto> 0.7]) \<and>
   valid_labels (detector [''car''] 0.6 (two_slots (2, 0.7) (17, 0.9))) \<noteq> [] \<and>
   dom [''car'' \<mapsto> 0.7 :: real] \<subseteq> set (valid_labels (detector [''car''] 0.6 (two_slots (2, 0.7) (17, 0.9)))) \<and>
   detect_frame plain_cv2 (detector [] 0.6 (two_slots (2, 0.7) (17, 0.9))) black_frame False
     = (black_frame, Inr [''dog'' \<mapsto> 0.9, ''car'' \<mapsto> 0.7]) \<and>
   valid_labels (detector [] 0.6 (two_slots (2, 0.7) (17, 0.9))) = [] \<and>
   ''dog'' \<in> dom [''dog'' \<mapsto> 0.9 :: real, ''car'' \<mapsto> 0.7]"
  using detect_frame_allow_list [of plain_cv2 "detector [''car''] 0.6 (two_slots (2, 0.7) (17, 0.9))"
      black_frame False black_frame "[''car'' \<mapsto> 0.7]"]
    detect_frame_allow_list [of plain_cv2 "detector [] 0.6 (two_slots (2, 0.7) (17, 0.9))"
      black_frame False black_frame "[''dog'' \<mapsto> 0.9, ''car'' \<mapsto> 0.7]"]
  by (simp add: run_simps)



text \<open>
  Claim C8.  \<open>run_detection\<close> always calls the filter with \<open>max_boxes = 10\<close> and
  \<open>min_score_thresh = 0.5\<close>, so the mapping returned by \<open>detect_frame\<close> has at most 10
  keys and every value is strictly greater than 0.5, whatever \<open>min_score\<close> is.
\<close>

theorem detect_frame_hidden_floor:
  assumes "detect_frame cv2 self frame draw = (frame', Inr d)"
  shows "finite (dom d) \<and> card (dom d) \<le> 10 \<and> (\<forall>l v. d l = Some v \<longrightarrow> 0.5 < v) \<and>
         (\<forall>t out. interpreter self t = Inr out \<longrightarrow>
            run_detection self t =
              non_max_suppression (Some (squeeze (raw_scores out))) (squeeze_boxes (raw_boxes out))
                (map_arr py_int (squeeze (map (\<lambda>c. c + 1) (raw_classes out)))) (Some 10) 0.5)"
proof -
  from detect_frame_Inr [OF assms] obtain t os ob oc where
    r: "run_detection self t = Inr (os, ob, oc)" and
    l: "detect_loop self os (rev (enumerate_list oc)) Map.empty = Inr d" by blast
  note rd = run_detection_result [OF r]
  have "finite (dom d)" by (rule detect_loop_card(1) [OF l])
  moreover have "card (dom d) \<le> 10"
    using detect_loop_card(2) [OF l] rd(2,3) by simp
  moreover have "\<forall>l v. d l = Some v \<longrightarrow> 0.5 < v"
  proof (intro allI impI)
    fix la v assume "d la = Some v"
    then obtain i where "i < length oc" "v = os ! i"
      unfolding detect_loop_first [OF l] by blast
    with rd(2,4) show "0.5 < v" by simp
  qed
  moreover have "\<forall>t out. interpreter self t = Inr out \<longrightarrow>
            run_detection self t =
              non_max_suppression (Some (squeeze (raw_scores out))) (squeeze_boxes (raw_boxes out))
                (map_arr py_int (squeeze (map (\<lambda>c. c + 1) (raw_classes out)))) (Some 10) 0.5"
    by (simp add: run_detection_def Let_def)
  ultimately show ?thesis by blast
qed

theorem detect_frame_hidden_floor_witness:
  "detect_frame plain_cv2 (detector [] 0.1 (two_slots (2, 0.3) (17, 0.9))) black_frame False
     = (black_frame, Inr [''dog'' \<mapsto> 0.9]) \<and>
   min_score (detector [] 0.1 (two_slots (2, 0.3) (17, 0.9))) < 0.3 \<and>
   [''dog'' \<mapsto> 0.9 :: real] ''car'' = None \<and>
   card (dom [''dog'' \<mapsto> 0.9 :: real]) \<le> 10 \<and>
   [''dog'' \<mapsto> 0.9 :: real] ''dog'' = Some 0.9 \<and> (0.5 :: real) < 0.9"
  using detect_frame_hidden_floor [of plain_cv2 "detector [] 0.1 (two_slots (2, 0.3) (17, 0.9))"
      black_frame False black_frame "[''dog'' \<mapsto> 0.9]"]
  by (simp add: run_simps)

text \<open>
  Claim C10.  When preprocessing or \<open>run_detection\<close> raises, \<open>detect_frame\<close> raises
  the same error, returns no detections, and leaves the frame as it was, also with
  \<open>draw = True\<close>.
\<close>

theorem detect_frame_failure_leaves_frame:
  assumes "preprocess_image_for_tflite cv2 frame 300 = Inl e \<or>
           (\<exists>t. preprocess_image_for_tflite cv2 frame 300 = Inr t \<and> run_detection self t = Inl e)"
  shows "detect_frame cv2 self frame draw = (frame, Inl e)"
  using assms by (auto simp: detect_frame_def)

theorem detect_frame_failure_leaves_frame_witness:
  "preprocess_image_for_tflite plain_cv2 black_frame 300
     = Inr \<lparr> shape = [1, 1, 1, 3], elems = [- 1, - 1, - 1] \<rparr> \<and>
   run_detection (detector [] 0.6 (two_slots (2, 0.7) (17, 0.9)) \<lparr> interpreter := failing_interpreter \<rparr>)
       \<lparr> shape = [1, 1, 1, 3], elems = [- 1, - 1, - 1] \<rparr> = Inl InterpreterError \<and>
   detect_frame plain_cv2 (detector [] 0.6 (two_slots (2, 0.7) (17, 0.9)) \<lparr> interpreter := failing_interpreter \<rparr>)
       black_frame True = (black_frame, Inl InterpreterError) \<and>
   detect_frame (plain_cv2 \<lparr> cvtColor := (\<lambda>img. Inl Cv2Error) \<rparr>)
       (detector [] 0.6 (two_slots (2, 0.7) (17, 0.9))) black_frame True = (black_frame, Inl Cv2Error) \<and>
   fst (detect_frame plain_cv2 (detector [] 0.6 (two_slots (2, 0.7) (17, 0.9))) black_frame True)
     \<noteq> black_frame"
  using detect_frame_failure_leaves_frame [of plain_cv2 black_frame InterpreterError
      "detector [] 0.6 (two_slots (2, 0.7) (17, 0.9)) \<lparr> interpreter := failing_interpreter \<rparr>" True]
    detect_frame_failure_leaves_frame [of "plain_cv2 \<lparr> cvtColor := (\<lambda>img. Inl Cv2Error) \<rparr>"
      black_frame Cv2Error "detector [] 0.6 (two_slots (2, 0.7) (17, 0.9))" True]
  by (simp add: run_simps failing_interpreter_def draw_boxes_def clamp_box_def)

section \<open>Properties of the preprocessing\<close>

text \<open>
  \<open>preprocess_image_for_tflite\<close> has no check of its own: it raises exactly when
  \<open>cvtColor\<close> or \<open>resize\<close> raises, and with the same error.
\<close>

lemma preprocess_image_for_tflite_Inl:
  "preprocess_image_for_tflite cv2 img n = Inl e \<longleftrightarrow>
     cvtColor cv2 img = Inl e \<or>
     (\<exists>rgb. cvtColor cv2 img = Inr rgb \<and> resize cv2 rgb (n, n) = Inl e)"
  by (auto simp: preprocess_image_for_tflite_def Let_def split: sum.splits)

section \<open>Properties of the inference post-processing\<close>







section \<open>Properties of the color table\<close>

lemma py_int_channel:
  assumes "0 \<le> x" "x \<le> 1"
  shows "0 \<le> py_int (x * 255) \<and> py_int (x * 255) \<le> 255"
proof -
  from assms have "0 \<le> x * 255" "x * 255 \<le> 255" by simp_all
  then show ?thesis by (simp add: py_int_def floor_le_iff le_floor_iff)
qed

lemma hsv_to_rgb_unit:
  assumes "0 \<le> h" and "hsv_to_rgb h 1 1 = (r, g, b)"
  shows "0 \<le> r \<and> r \<le> 1 \<and> 0 \<le> g \<and> g \<le> 1 \<and> 0 \<le> b \<and> b \<le> 1"
proof -
  let ?f = "h * 6 - real_of_int \<lfloor>h * 6\<rfloor>"
  have f: "0 \<le> ?f" "?f \<le> 1" by linarith+
  from assms(1) have i: "py_int (h * 6) = \<lfloor>h * 6\<rfloor>" by (simp add: py_int_def)
  from assms(2) f show ?thesis
    unfolding hsv_to_rgb_def i Let_def by (auto split: if_splits)
qed

lemma channels_in_range:
  "\<forall>c \<in> set (map (\<lambda>(r, g, b). (py_int (r * 255), py_int (g * 255), py_int (b * 255)))
      (map (\<lambda>(h, s, v). hsv_to_rgb h s v)
         (map (\<lambda>x. (real x / real n, 1, 1)) [0 ..< n]))).
     case c of (r, g, b) \<Rightarrow> 0 \<le> r \<and> r \<le> 255 \<and> 0 \<le> g \<and> g \<le> 255 \<and> 0 \<le> b \<and> b \<le> 255"
proof
  fix c
  assume "c \<in> set (map (\<lambda>(r, g, b). (py_int (r * 255), py_int (g * 255), py_int (b * 255)))
      (map (\<lambda>(h, s, v). hsv_to_rgb h s v) (map (\<lambda>x. (real x / real n, 1, 1)) [0 ..< n])))"
  then obtain x where x: "x < n"
    and c: "c = (case hsv_to_rgb (real x / real n) 1 1 of
                   (r, g, b) \<Rightarrow> (py_int (r * 255), py_int (g * 255), py_int (b * 255)))"
    by auto
  obtain r g b where rgb: "hsv_to_rgb (real x / real n) 1 1 = (r, g, b)"
    by (cases "hsv_to_rgb (real x / real n) 1 1")
  have "0 \<le> real x / real n" by simp
  from hsv_to_rgb_unit [OF this rgb] c rgb
  show "case c of (r, g, b) \<Rightarrow> 0 \<le> r \<and> r \<le> 255 \<and> 0 \<le> g \<and> g \<le> 255 \<and> 0 \<le> b \<and> b \<le> 255"
    by (simp add: py_int_channel)
qed

text \<open>
  Claim C7.  For a \<open>shuffle\<close> that permutes its argument and a \<open>seed\<close> that, given an
  integer, fixes the generator state, \<open>generate_colors\<close> returns as many colors as there
  are labels, every channel lies between 0 and 255, and the result does not depend on the
  state the generator was in before the call.
\<close>

theorem generate_colors_table:
  assumes "\<forall>xs g. mset (fst (shuffle random xs g)) = mset xs"
    and "\<forall>n g g'. seed random (Some n) g = seed random (Some n) g'"
  shows "length (fst (generate_colors random names g)) = length names \<and>
         (\<forall>c \<in> set (fst (generate_colors random names g)).
            case c of (r, gr, b) \<Rightarrow> 0 \<le> r \<and> r \<le> 255 \<and> 0 \<le> gr \<and> gr \<le> 255 \<and> 0 \<le> b \<and> b \<le> 255) \<and>
         fst (generate_colors random names g) = fst (generate_colors random names g')"
proof -
  let ?n = "length names"
  let ?cols = "map (\<lambda>(r, g, b). (py_int (r * 255), py_int (g * 255), py_int (b * 255)))
      (map (\<lambda>(h, s, v). hsv_to_rgb h s v) (map (\<lambda>x. (real x / real ?n, 1, 1)) [0 ..< ?n]))"
  have gc: "\<And>g. fst (generate_colors random names g)
                = fst (shuffle random ?cols (seed random (Some 10101) g))"
    by (simp add: generate_colors_def Let_def split_def del: map_map)
  have m: "\<And>g. mset (fst (generate_colors random names g)) = mset ?cols"
    unfolding gc using assms(1) by blast
  have "length (fst (generate_colors random names g)) = length ?cols"
    using m [of g] by (metis size_mset)
  then have 1: "length (fst (generate_colors random names g)) = ?n" by simp
  have "set (fst (generate_colors random names g)) = set ?cols"
    using m [of g] by (metis set_mset_mset)
  with channels_in_range [of ?n]
  have 2: "\<forall>c \<in> set (fst (generate_colors random names g)).
            case c of (r, gr, b) \<Rightarrow> 0 \<le> r \<and> r \<le> 255 \<and> 0 \<le> gr \<and> gr \<le> 255 \<and> 0 \<le> b \<and> b \<le> 255"
    by simp
  from assms(2) have "seed random (Some 10101) g = seed random (Some 10101) g'" by blast
  then have 3: "fst (generate_colors random names g) = fst (generate_colors random names g')"
    unfolding gc by simp
  from 1 2 3 show ?thesis by blast
qed

theorem generate_colors_table_witness:
  "(\<forall>xs g. mset (fst (shuffle reversing_random xs g)) = mset xs) \<and>
   (\<forall>n g g'. seed reversing_random (Some n) g = seed reversing_random (Some n) g') \<and>
   fst (generate_colors reversing_random [''a'', ''b'', ''c''] 0)
     = [(0, 0, 255), (0, 255, 0), (255, 0, 0)] \<and>
   fst (generate_colors reversing_random [''a'', ''b'', ''c''] 7)
     = fst (generate_colors reversing_random [''a'', ''b'', ''c''] 0) \<and>
   length (fst (generate_colors reversing_random [''a'', ''b'', ''c''] 0)) = length [''a'', ''b'', ''c'']"
proof -
  have a: "\<forall>xs g. mset (fst (shuffle reversing_random xs g)) = mset xs"
    by (simp add: reversing_random_def)
  have b: "\<forall>n g g'. seed reversing_random (Some n) g = seed reversing_random (Some n) g'"
    by (simp add: reversing_random_def)
  note th = generate_colors_table [OF a b, of "[''a'', ''b'', ''c'']"]
  have c: "fst (generate_colors reversing_random [''a'', ''b'', ''c''] 0)
     = [(0, 0, 255), (0, 255, 0), (255, 0, 0)]"
    by (simp add: generate_colors_def reversing_random_def hsv_to_rgb_def py_int_def upt_rec Let_def)
  from th [of 7 0] have d: "fst (generate_colors reversing_random [''a'', ''b'', ''c''] 7)
     = fst (generate_colors reversing_random [''a'', ''b'', ''c''] 0)" by blast
  from th [of 0 0] have e: "length (fst (generate_colors reversing_random [''a'', ''b'', ''c''] 0))
     = length [''a'', ''b'', ''c'']" by blast
  from a b c d e show ?thesis by blast
qed

end
